theory Spec2Isabelle
  imports Complex_Main "HOL-Library.Sublist" "HOL-Library.AList"
begin

text \<open>
  The source file \<open>js/custom/charts.js\<close> holds two scripts, one after the other. Both
  define \<open>getRequestsFromHar\<close> and \<open>zoomToElements\<close>. The first script keeps a
  whitelist of first-party domains in \<open>config\<close> and marks each record with \<open>firstParty\<close>
  and \<open>stats\<close>; the second script expresses the same marks as tag functions in
  \<open>config.fileTags\<close>. The text of \<open>zoomToElements\<close>, \<open>urlAbbreviate\<close> and
  \<open>mimeToFiletype\<close> is the same in both. Names of the first script that differ from
  the second carry the suffix \<open>_v1\<close>.
\<close>

section \<open>JavaScript numbers\<close>

text \<open>
  The chart script computes with JavaScript numbers. A number is modelled by its value:
  \<open>NaN\<close>, the two infinities, negative zero, or a finite value \<open>Fin r\<close> with \<open>r\<close> rational
  (\<open>Fin 0\<close> is positive zero). Finite arithmetic is exact: the rounding of a double result
  to 53 bits and overflow to an infinity are not modelled. Signs of zeros and the special
  values follow ECMAScript, because the script divides by maxima that can be zero
  or \<open>-Infinity\<close>.
\<close>

datatype jsnum = NaN | NInf | PInf | NZero | Fin rat

text \<open>The numeric value of a finite number (both zeros have value 0).\<close>

fun val :: "jsnum \<Rightarrow> rat" where
  "val (Fin r) = r"
| "val _ = 0"

text \<open>The sign bit: set for \<open>-Infinity\<close>, \<open>-0\<close> and negative finite values.\<close>

fun sign_neg :: "jsnum \<Rightarrow> bool" where
  "sign_neg NInf = True"
| "sign_neg NZero = True"
| "sign_neg (Fin r) = (r < 0)"
| "sign_neg _ = False"

fun js_isInf :: "jsnum \<Rightarrow> bool" where
  "js_isInf NInf = True"
| "js_isInf PInf = True"
| "js_isInf _ = False"

text \<open>\<open>isFinite(x)\<close>: neither \<open>NaN\<close> nor an infinity.\<close>

fun js_isFinite :: "jsnum \<Rightarrow> bool" where
  "js_isFinite (Fin r) = True"
| "js_isFinite NZero = True"
| "js_isFinite _ = False"

fun js_isZero :: "jsnum \<Rightarrow> bool" where
  "js_isZero NZero = True"
| "js_isZero (Fin r) = (r = 0)"
| "js_isZero _ = False"

text \<open>A finite result \<open>r\<close> whose sign bit is \<open>neg\<close> when it is zero.\<close>

definition mk_fin :: "bool \<Rightarrow> rat \<Rightarrow> jsnum" where
  "mk_fin neg r = (if r = 0 then (if neg then NZero else Fin 0) else Fin r)"

definition mk_inf :: "bool \<Rightarrow> jsnum" where
  "mk_inf neg = (if neg then NInf else PInf)"

text \<open>\<open>a < b\<close>: false when either side is \<open>NaN\<close>; the two zeros are equal.\<close>

fun js_lt :: "jsnum \<Rightarrow> jsnum \<Rightarrow> bool" where
  "js_lt NaN b = False"
| "js_lt a NaN = False"
| "js_lt a NInf = False"
| "js_lt NInf b = True"
| "js_lt PInf b = False"
| "js_lt a PInf = True"
| "js_lt a b = (val a < val b)"

text \<open>\<open>a <= b\<close>: false when either side is \<open>NaN\<close>, otherwise not \<open>b < a\<close>.\<close>

definition js_le :: "jsnum \<Rightarrow> jsnum \<Rightarrow> bool" where
  "js_le a b = (a \<noteq> NaN \<and> b \<noteq> NaN \<and> \<not> js_lt b a)"

text \<open>\<open>a + b\<close>: opposite infinities give \<open>NaN\<close>; a zero sum is \<open>-0\<close> only for \<open>-0 + -0\<close>.\<close>

definition js_add :: "jsnum \<Rightarrow> jsnum \<Rightarrow> jsnum" where
  "js_add a b =
     (if a = NaN \<or> b = NaN then NaN
      else if js_isInf a then (if js_isInf b \<and> a \<noteq> b then NaN else a)
      else if js_isInf b then b
      else if a = NZero \<and> b = NZero then NZero
      else Fin (val a + val b))"

text \<open>\<open>a * b\<close>: infinity times zero is \<open>NaN\<close>; the sign is the exclusive or of the signs.\<close>

definition js_mul :: "jsnum \<Rightarrow> jsnum \<Rightarrow> jsnum" where
  "js_mul a b =
     (if a = NaN \<or> b = NaN then NaN
      else if js_isInf a \<or> js_isInf b then
        (if js_isZero a \<or> js_isZero b then NaN else mk_inf (sign_neg a \<noteq> sign_neg b))
      else mk_fin (sign_neg a \<noteq> sign_neg b) (val a * val b))"

text \<open>
  \<open>a / b\<close>: \<open>Infinity / Infinity\<close> and \<open>0 / 0\<close> are \<open>NaN\<close>; a finite number over an infinity
  is a signed zero; a nonzero number over a zero is a signed infinity.
\<close>

definition js_div :: "jsnum \<Rightarrow> jsnum \<Rightarrow> jsnum" where
  "js_div a b =
     (if a = NaN \<or> b = NaN then NaN
      else if js_isInf a then
        (if js_isInf b then NaN else mk_inf (sign_neg a \<noteq> sign_neg b))
      else if js_isInf b then mk_fin (sign_neg a \<noteq> sign_neg b) 0
      else if js_isZero b then
        (if js_isZero a then NaN else mk_inf (sign_neg a \<noteq> sign_neg b))
      else mk_fin (sign_neg a \<noteq> sign_neg b) (val a / val b))"

text \<open>
  \<open>Math.round(x)\<close>: the integer nearest to \<open>x\<close>, ties towards \<open>+Infinity\<close>; \<open>-0\<close> for
  \<open>-0\<close> and for \<open>-0.5 <= x < 0\<close>.
\<close>

fun Math_round :: "jsnum \<Rightarrow> jsnum" where
  "Math_round (Fin r) =
     (if r < 0 \<and> - (1 / 2) \<le> r then NZero else Fin (of_int \<lfloor>r + 1 / 2\<rfloor>))"
| "Math_round x = x"

text \<open>
  \<open>Math.max.apply(null, xs)\<close>: starts from \<open>-Infinity\<close>; a \<open>NaN\<close> argument makes the
  result \<open>NaN\<close>; \<open>+0\<close> is larger than \<open>-0\<close>.
\<close>

definition max_step :: "jsnum \<Rightarrow> jsnum \<Rightarrow> jsnum" where
  "max_step highest n =
     (if highest = NaN \<or> n = NaN then NaN
      else if n = Fin 0 \<and> highest = NZero then Fin 0
      else if js_lt highest n then n
      else highest)"

definition Math_max :: "jsnum list \<Rightarrow> jsnum" where
  "Math_max xs = foldl max_step NInf xs"

text \<open>\<open>Math.min(a, b)\<close>: starts from \<open>+Infinity\<close>; \<open>-0\<close> is smaller than \<open>+0\<close>.\<close>

definition min_step :: "jsnum \<Rightarrow> jsnum \<Rightarrow> jsnum" where
  "min_step lowest n =
     (if lowest = NaN \<or> n = NaN then NaN
      else if n = NZero \<and> lowest = Fin 0 then NZero
      else if js_lt n lowest then n
      else lowest)"

definition Math_min :: "jsnum list \<Rightarrow> jsnum" where
  "Math_min xs = foldl min_step PInf xs"

text \<open>
  \<open>margin || 0\<close>: an omitted margin (\<open>None\<close>) and the falsy numbers \<open>0\<close>, \<open>-0\<close> and \<open>NaN\<close>
  become \<open>0\<close>.
\<close>

fun margin_or_0 :: "jsnum option \<Rightarrow> jsnum" where
  "margin_or_0 None = Fin 0"
| "margin_or_0 (Some m) = (if m = NaN \<or> js_isZero m then Fin 0 else m)"

section \<open>JavaScript strings and values\<close>

text \<open>
  \<open>s.indexOf(pat)\<close>: the position of the first occurrence of \<open>pat\<close> in \<open>s\<close>, or \<open>-1\<close>.
\<close>

fun indexOf :: "string \<Rightarrow> string \<Rightarrow> int" where
  "indexOf [] pat = (if pat = [] then 0 else - 1)"
| "indexOf (c # cs) pat =
     (if prefix pat (c # cs) then 0
      else (let i = indexOf cs pat in if i < 0 then - 1 else i + 1))"

text \<open>
  \<open>s.substring(a, b)\<close>: both positions are clamped to \<open>[0, length]\<close> and swapped when
  \<open>a > b\<close>; \<open>s.substring(a)\<close> runs to the end of the string.
\<close>

definition substring :: "string \<Rightarrow> int \<Rightarrow> int \<Rightarrow> string" where
  "substring s a b =
     (let len = int (length s);
          a' = min (max a 0) len;
          b' = min (max b 0) len;
          from = min a' b';
          to = max a' b'
      in take (nat (to - from)) (drop (nat from) s))"

definition substring_from :: "string \<Rightarrow> int \<Rightarrow> string" where
  "substring_from s a = substring s a (int (length s))"

text \<open>
  Case-insensitive matching of an ASCII pattern (the \<open>i\<close> flag): a letter matches its
  upper and lower case form.
\<close>

definition toLowerASCII :: "char \<Rightarrow> char" where
  "toLowerASCII c =
     (let n = (of_char c :: nat) in if 65 \<le> n \<and> n \<le> 90 then char_of (n + 32) else c)"

definition ci_prefix :: "string \<Rightarrow> string \<Rightarrow> bool" where
  "ci_prefix pat s = prefix (map toLowerASCII pat) (map toLowerASCII s)"

text \<open>The characters that \<open>.\<close> does not match, among 8-bit characters.\<close>

definition isLineTerminator :: "char \<Rightarrow> bool" where
  "isLineTerminator c = (c = CHR 0x0A \<or> c = CHR 0x0D)"

text \<open>
  A value a tag predicate can return, as far as \<open>Boolean(...)\<close> tells them apart.
  \<open>JObj\<close> stands for any object, such as the array returned by a successful \<open>match\<close>.
\<close>

datatype jsval = JUndefined | JNull | JBool bool | JNum jsnum | JStr string | JObj

fun Boolean :: "jsval \<Rightarrow> bool" where
  "Boolean JUndefined = False"
| "Boolean JNull = False"
| "Boolean (JBool b) = b"
| "Boolean (JNum n) = (n \<noteq> NaN \<and> \<not> js_isZero n)"
| "Boolean (JStr s) = (s \<noteq> [])"
| "Boolean JObj = True"

text \<open>
  A regular expression is represented by its test on strings: whether \<open>s.match(regex)\<close>
  is not \<open>null\<close>.
\<close>

type_synonym regex = "string \<Rightarrow> bool"

section \<open>Data model\<close>

text \<open>
  The object that the \<open>map\<close> callback of \<open>getRequestsFromHar\<close> builds for an entry.
  The property \<open>end\<close> is the field \<open>end_time\<close>.
\<close>

record RawItem =
  type :: string
  originalUrl :: string
  url :: string
  domain :: string
  path :: string
  start :: jsnum
  duration :: jsnum
  end_time :: jsnum

text \<open>
  A request record: the item with its \<open>tags\<close> object (keys in insertion order) and the
  \<open>index\<close> property that \<open>zoomToElements\<close> writes (\<open>None\<close> until then).
\<close>

record RequestRecord = RawItem +
  tags :: "(string \<times> bool) list"
  index :: "nat option"

text \<open>The first script adds two more properties to each record.\<close>

record RequestRecord_v1 = RequestRecord +
  firstParty :: bool
  stats :: bool

text \<open>
  A tag rule of \<open>config.fileTags\<close>: a regular expression tested against the \<open>url\<close>, or a
  function over the item.
\<close>

datatype TagRule = Pattern regex | Predicate "RawItem \<Rightarrow> jsval"

record chart_layout =
  itemHeight :: jsnum
  itemMargin :: jsnum

text \<open>\<open>config\<close> of the second script; \<open>fileTags\<close> lists the properties in order.\<close>

record config = chart_layout +
  fileTags :: "(string \<times> TagRule) list"

text \<open>\<open>config\<close> of the first script.\<close>

record config_v1 = chart_layout +
  firstPartyWhitelist :: "string list"
  fileTags_v1 :: "(string \<times> regex) list"

text \<open>
  The HAR document, \<open>harData.log\<close>. A timestamp is represented by the time value of
  \<open>new Date(timestamp)\<close> in milliseconds, \<open>None\<close> for an invalid date. An absent
  \<open>pageref\<close>, \<open>id\<close> or \<open>mimeType\<close> is \<open>None\<close>.
\<close>

record Page =
  startedDateTime :: "int option"
  page_id :: "string option"
  pageTimings_onLoad :: jsnum

record Entry =
  pageref :: "string option"
  entry_startedDateTime :: "int option"
  request_url :: string
  response_content_mimeType :: "string option"
  time :: jsnum

record HarData =
  pages :: "Page list"
  entries :: "Entry list"

datatype error = TypeError

text \<open>The two scale factors written into the \<open>transform\<close> style of the chart.\<close>

record transform =
  scaleX :: jsnum
  scaleY :: jsnum

section \<open>The HAR normalizer (second script)\<close>

text \<open>\<open>new Date(a) - new Date(b)\<close>: the difference of the time values, \<open>NaN\<close> for an invalid date.\<close>

fun date_diff :: "int option \<Rightarrow> int option \<Rightarrow> jsnum" where
  "date_diff (Some a) (Some b) = Fin (of_int (a - b))"
| "date_diff a b = NaN"

text \<open>
  \<open>s.replace(/c.*/g, '')\<close> for a character \<open>c\<close>: every occurrence of \<open>c\<close> is removed
  together with the rest of its line.
\<close>

function removeFrom :: "char \<Rightarrow> string \<Rightarrow> string" where
  "removeFrom c [] = []"
| "removeFrom c (x # xs) =
     (if x = c then removeFrom c (dropWhile (\<lambda>y. \<not> isLineTerminator y) xs)
      else x # removeFrom c xs)"
  by pat_completeness auto
termination
  by (relation "measure (\<lambda>(c, s). length s)")
     (auto simp: le_imp_less_Suc length_dropWhile_le)

text \<open>The rest of \<open>s\<close> after the pattern \<open>pat\<close>, matched at the start ignoring case.\<close>

definition strip_ci :: "string \<Rightarrow> string \<Rightarrow> string option" where
  "strip_ci pat s = (if ci_prefix pat s then Some (drop (length pat) s) else None)"

text \<open>\<open>s.replace(/^https?:\/\/(www\.)?/i, '')\<close>.\<close>

definition removeProtocol :: "string \<Rightarrow> string" where
  "removeProtocol s =
     (case strip_ci ''http'' s of
        None \<Rightarrow> s
      | Some r1 \<Rightarrow>
          (let r2 = (case strip_ci ''s'' r1 of None \<Rightarrow> r1 | Some r \<Rightarrow> r) in
           case strip_ci ''://'' r2 of
             None \<Rightarrow> s
           | Some r3 \<Rightarrow> (case strip_ci ''www.'' r3 of None \<Rightarrow> r3 | Some r4 \<Rightarrow> r4)))"

definition urlAbbreviate :: "string \<Rightarrow> string" where
  "urlAbbreviate url0 =
     (let url1 = removeProtocol url0;
          url2 = removeFrom (CHR ''?'') url1;
          url3 = removeFrom (CHR ''#'') url2
      in url3)"

definition mimeToFiletype :: "string \<Rightarrow> string" where
  "mimeToFiletype mimeType =
     (if indexOf mimeType ''image'' > - 1 then ''image''
      else if indexOf mimeType ''script'' > - 1 then ''script''
      else if indexOf mimeType ''css'' > - 1 then ''style''
      else if indexOf mimeType ''font'' > - 1 then ''font''
      else ''other'')"

text \<open>\<open>entry.response.content.mimeType || ''\<close>.\<close>

fun mimeType_or_empty :: "string option \<Rightarrow> string" where
  "mimeType_or_empty None = []"
| "mimeType_or_empty (Some m) = m"

definition getMatchFunction :: "regex \<Rightarrow> RawItem \<Rightarrow> jsval" where
  "getMatchFunction regex entry = JBool (regex (url entry))"

text \<open>
  \<open>getFileTags(entry)\<close> of the second script: one assignment \<open>tags[tagName] = ...\<close> for
  every property of \<open>config.fileTags\<close>.
\<close>

definition getFileTags :: "'c config_scheme \<Rightarrow> RawItem \<Rightarrow> (string \<times> bool) list" where
  "getFileTags cfg entry =
     foldl (\<lambda>tags (tagName, rule).
              let filter_fn = (case rule of Pattern regex \<Rightarrow> getMatchFunction regex
                                          | Predicate f \<Rightarrow> f)
              in AList.update tagName (Boolean (filter_fn entry)) tags)
           [] (fileTags cfg)"

text \<open>The callback of \<open>harLog.entries.map\<close>.\<close>

definition mkItem :: "int option \<Rightarrow> Entry \<Rightarrow> RawItem" where
  "mkItem startDate entry =
     (let startTimeMs = date_diff (entry_startedDateTime entry) startDate;
          url_abbr = urlAbbreviate (request_url entry)
      in \<lparr> type = mimeToFiletype (mimeType_or_empty (response_content_mimeType entry)),
           originalUrl = request_url entry,
           url = url_abbr,
           domain = substring url_abbr 0 (indexOf url_abbr ''/''),
           path = substring_from url_abbr (indexOf url_abbr ''/''),
           start = startTimeMs,
           duration = time entry,
           end_time = Math_round (js_add startTimeMs (time entry)) \<rparr>)"

text \<open>\<open>item.tags = getFileTags(item)\<close>.\<close>

definition addTags :: "'c config_scheme \<Rightarrow> RawItem \<Rightarrow> RequestRecord" where
  "addTags cfg item = RawItem.extend item \<lparr> tags = getFileTags cfg item, index = None \<rparr>"

text \<open>
  The entries kept by the page filter: with more than one page, those whose \<open>pageref\<close> is
  the \<open>id\<close> of the first page; the script stores them back into \<open>harLog.entries\<close>.
\<close>

definition firstPageEntries :: "HarData \<Rightarrow> Entry list" where
  "firstPageEntries harData =
     (if length (pages harData) > 1
      then filter (\<lambda>entry. pageref entry = page_id (hd (pages harData))) (entries harData)
      else entries harData)"

text \<open>
  \<open>getRequestsFromHar(harData)\<close> of the second script. The result is the document after
  the call, and either the \<open>TypeError\<close> thrown by \<open>harLog.pages[0].startedDateTime\<close> when
  there is no page, or the returned records.
\<close>

definition getRequestsFromHar ::
  "'c config_scheme \<Rightarrow> HarData \<Rightarrow> HarData \<times> (error + RequestRecord list)" where
  "getRequestsFromHar cfg harData =
     (case pages harData of
        [] \<Rightarrow> (harData, Inl TypeError)
      | page0 # _ \<Rightarrow>
          (let startDate = startedDateTime page0;
               onLoad = pageTimings_onLoad page0;
               harData' = harData \<lparr> entries := firstPageEntries harData \<rparr>;
               items0 = map (mkItem startDate) (entries harData');
               items1 = map (addTags cfg) items0;
               items2 = filter (\<lambda>item. js_le (start item) onLoad) items1
           in (harData', Inr items2)))"

section \<open>The viewport fit\<close>

text \<open>\<open>data.forEach(function (d, idx) { d.index = idx; })\<close>, the records being distinct objects.\<close>

definition assignIndex :: "'a RequestRecord_scheme list \<Rightarrow> 'a RequestRecord_scheme list" where
  "assignIndex data = map (\<lambda>(d, idx). d \<lparr> index := Some idx \<rparr>) (zip data [0..<length data])"

definition getXCoordinate :: "'a RequestRecord_scheme \<Rightarrow> jsnum" where
  "getXCoordinate d = end_time d"

text \<open>\<open>d.index * (config.itemHeight + config.itemMargin)\<close>; an undefined index gives \<open>NaN\<close>.\<close>

definition getYCoordinate :: "'c chart_layout_scheme \<Rightarrow> 'a RequestRecord_scheme \<Rightarrow> jsnum" where
  "getYCoordinate cfg d =
     js_mul (case index d of None \<Rightarrow> NaN | Some idx \<Rightarrow> Fin (of_nat idx))
            (js_add (itemHeight cfg) (itemMargin cfg))"

text \<open>\<open>filter || function () { return true; }\<close>: an omitted filter matches every record.\<close>

fun filter_or_all :: "('a \<Rightarrow> bool) option \<Rightarrow> 'a \<Rightarrow> bool" where
  "filter_or_all None = (\<lambda>d. True)"
| "filter_or_all (Some f) = f"

text \<open>
  \<open>zoomToElements(selection, filter, margin)\<close>, where \<open>data0\<close> is \<open>selection.data()\<close> and an
  omitted argument is \<open>None\<close>. The result is the records after the call and the two scale
  factors that the script writes into the transform.
\<close>

definition zoomToElements ::
  "'c chart_layout_scheme \<Rightarrow> 'a RequestRecord_scheme list \<Rightarrow>
   ('a RequestRecord_scheme \<Rightarrow> bool) option \<Rightarrow> jsnum option \<Rightarrow>
   'a RequestRecord_scheme list \<times> transform" where
  "zoomToElements cfg data0 filter0 margin0 =
     (let margin = margin_or_0 margin0;
          filter_fn = filter_or_all filter0;
          data = assignIndex data0;
          filtered = filter filter_fn data;
          filteredMax_x = Math_max (map getXCoordinate filtered);
          filteredMax_y = Math_max (map (getYCoordinate cfg) filtered);
          max_x = Math_max (map getXCoordinate data);
          max_y = Math_max (map (getYCoordinate cfg) data);
          filteredMax_x' =
            (if js_lt filteredMax_x max_x
             then Math_min [js_mul filteredMax_x (js_add (Fin 1) margin), max_x]
             else filteredMax_x);
          filteredMax_y' =
            (if js_lt filteredMax_y max_y
             then Math_min [js_mul filteredMax_y (js_add (Fin 1) margin), max_y]
             else filteredMax_y)
      in (data, \<lparr> scaleX = js_div max_x filteredMax_x',
                  scaleY = js_div max_y filteredMax_y' \<rparr>))"

section \<open>The HAR normalizer (first script)\<close>

text \<open>
  The regular expression \<open>'(' + whitelist.join('|').replace(/\./g, '\\.') + ')$'\<close>: the
  string ends with one of the whitelisted domains (an empty whitelist gives \<open>()$\<close>, which
  matches every string). The domains are taken to contain no regular expression operator
  other than the dot.
\<close>

definition whitelistRegex :: "string list \<Rightarrow> regex" where
  "whitelistRegex whitelist s = (whitelist = [] \<or> list_ex (\<lambda>w. suffix w s) whitelist)"

text \<open>
  \<open>getFirstPartyRegex(requests)\<close>: pushes the domain of the first request onto
  \<open>config.firstPartyWhitelist\<close>; \<open>requests[0].domain\<close> throws when there is no request.
\<close>

definition getFirstPartyRegex ::
  "config_v1 \<Rightarrow> 'a RequestRecord_scheme list \<Rightarrow> config_v1 \<times> (error + regex)" where
  "getFirstPartyRegex cfg requests =
     (case requests of
        [] \<Rightarrow> (cfg, Inl TypeError)
      | request0 # _ \<Rightarrow>
          (let cfg' = cfg \<lparr> firstPartyWhitelist := firstPartyWhitelist cfg @ [domain request0] \<rparr>
           in (cfg', Inr (whitelistRegex (firstPartyWhitelist cfg')))))"

text \<open>
  \<open>getFileTags(url)\<close> of the first script: \<open>tags[tagName] = true\<close> for the matching
  expressions only.
\<close>

definition getFileTags_v1 :: "config_v1 \<Rightarrow> string \<Rightarrow> (string \<times> bool) list" where
  "getFileTags_v1 cfg u =
     foldl (\<lambda>tags (tagName, regex). if regex u then AList.update tagName True tags else tags)
           [] (fileTags_v1 cfg)"

text \<open>The callback of \<open>harLog.entries.map\<close> in the first script: the item with its tags.\<close>

definition mkItem_v1 :: "config_v1 \<Rightarrow> int option \<Rightarrow> Entry \<Rightarrow> RequestRecord" where
  "mkItem_v1 cfg startDate entry =
     (let item = mkItem startDate entry
      in RawItem.extend item \<lparr> tags = getFileTags_v1 cfg (url item), index = None \<rparr>)"

text \<open>The callback of the last \<open>items.map\<close>: sets \<open>firstParty\<close> and \<open>stats\<close>.\<close>

definition markFirstParty :: "regex \<Rightarrow> RequestRecord \<Rightarrow> RequestRecord_v1" where
  "markFirstParty firstPartyRegex entry =
     (let fp = Boolean (JBool (firstPartyRegex (domain entry)))
      in RequestRecord.extend entry
           \<lparr> firstParty = fp, stats = (fp \<and> indexOf (path entry) ''/stats/'' = 0) \<rparr>)"

text \<open>
  \<open>getRequestsFromHar(harData)\<close> of the first script. The result is \<open>config\<close> and the
  document after the call, and the error thrown or the records returned.
\<close>

definition getRequestsFromHar_v1 ::
  "config_v1 \<Rightarrow> HarData \<Rightarrow> config_v1 \<times> HarData \<times> (error + RequestRecord_v1 list)" where
  "getRequestsFromHar_v1 cfg harData =
     (case pages harData of
        [] \<Rightarrow> (cfg, harData, Inl TypeError)
      | page0 # _ \<Rightarrow>
          (let startDate = startedDateTime page0;
               onLoad = pageTimings_onLoad page0;
               harData' = harData \<lparr> entries := firstPageEntries harData \<rparr>;
               items1 = map (mkItem_v1 cfg startDate) (entries harData');
               items2 = filter (\<lambda>item. js_le (start item) onLoad) items1
           in case getFirstPartyRegex cfg items2 of
                (cfg', Inl e) \<Rightarrow> (cfg', harData', Inl e)
              | (cfg', Inr firstPartyRegex) \<Rightarrow>
                  (cfg', harData', Inr (map (markFirstParty firstPartyRegex) items2))))"

section \<open>The configurations of the two scripts\<close>

text \<open>\<open>/require\.js/i\<close>: the string contains \<open>require.js\<close>, ignoring case.\<close>

definition scriptLoader_regex :: regex where
  "scriptLoader_regex s = list_ex (ci_prefix ''require.js'') (suffixes s)"

text \<open>
  \<open>/javascripts\-min\/layer\/.*\.js$/i\<close>: somewhere \<open>javascripts-min/layer/\<close>, followed by
  characters of the same line up to a final \<open>.js\<close>.
\<close>

definition mainScript_regex :: regex where
  "mainScript_regex s =
     list_ex (\<lambda>t. case strip_ci ''javascripts-min/layer/'' t of
                    None \<Rightarrow> False
                  | Some r \<Rightarrow> 3 \<le> length r \<and> ci_prefix ''.js'' (drop (length r - 3) r)
                             \<and> \<not> list_ex isLineTerminator (take (length r - 3) r))
             (suffixes s)"

definition firstPartyRegex :: regex where
  "firstPartyRegex =
     whitelistRegex [''gawker.com'', ''kinja.com'', ''kinja-img.com'', ''kinja-static.com'']"

text \<open>\<open>config\<close> of the second script, with the tag functions \<open>firstParty\<close> and \<open>stats\<close>.\<close>

definition config :: config where
  "config =
     \<lparr> itemHeight = Fin 10, itemMargin = Fin 2,
       fileTags =
         [(''scriptLoader'', Pattern scriptLoader_regex),
          (''mainScript'', Pattern mainScript_regex),
          (''firstParty'', Predicate (\<lambda>item. JBool (firstPartyRegex (domain item)))),
          (''stats'', Predicate (\<lambda>item.
              if firstPartyRegex (domain item)
              then JBool (indexOf (path item) ''/stats/'' = 0) else JNull))] \<rparr>"

text \<open>\<open>config\<close> of the first script, as it is before the first call.\<close>

definition config_v1_initial :: config_v1 where
  "config_v1_initial =
     \<lparr> itemHeight = Fin 10, itemMargin = Fin 2,
       firstPartyWhitelist = [''kinja.com'', ''kinja-img.com'', ''kinja-static.com''],
       fileTags_v1 = [(''scriptLoader'', scriptLoader_regex), (''mainScript'', mainScript_regex)] \<rparr>"

text \<open>The maxima that \<open>zoomToElements\<close> computes before it applies the margin.\<close>

definition fullMax_x :: "'a RequestRecord_scheme list \<Rightarrow> jsnum" where
  "fullMax_x data0 = Math_max (map getXCoordinate (assignIndex data0))"

definition fullMax_y :: "'c chart_layout_scheme \<Rightarrow> 'a RequestRecord_scheme list \<Rightarrow> jsnum" where
  "fullMax_y cfg data0 = Math_max (map (getYCoordinate cfg) (assignIndex data0))"

definition filteredMax_x ::
  "'a RequestRecord_scheme list \<Rightarrow> ('a RequestRecord_scheme \<Rightarrow> bool) \<Rightarrow> jsnum" where
  "filteredMax_x data0 f = Math_max (map getXCoordinate (filter f (assignIndex data0)))"

definition filteredMax_y ::
  "'c chart_layout_scheme \<Rightarrow> 'a RequestRecord_scheme list \<Rightarrow>
   ('a RequestRecord_scheme \<Rightarrow> bool) \<Rightarrow> jsnum" where
  "filteredMax_y cfg data0 f = Math_max (map (getYCoordinate cfg) (filter f (assignIndex data0)))"

text \<open>The scale factor of one axis, from the filtered maximum, the full maximum and the margin.\<close>

definition axisScale :: "jsnum \<Rightarrow> jsnum \<Rightarrow> jsnum \<Rightarrow> jsnum" where
  "axisScale fm mx margin =
     js_div mx (if js_lt fm mx then Math_min [js_mul fm (js_add (Fin 1) margin), mx] else fm)"

section \<open>Sample documents\<close>

text \<open>
  A page that starts at time value 1000 and fires \<open>onLoad\<close> after 2000 ms, and an entry of
  that page given by its start time value, duration, URL and MIME type.
\<close>

definition sample_page :: Page where
  "sample_page =
     \<lparr> startedDateTime = Some 1000, page_id = Some ''page_1'', pageTimings_onLoad = Fin 2000 \<rparr>"

definition sample_entry :: "int \<Rightarrow> jsnum \<Rightarrow> string \<Rightarrow> string option \<Rightarrow> Entry" where
  "sample_entry t dur u mime =
     \<lparr> pageref = Some ''page_1'', entry_startedDateTime = Some t, request_url = u,
       response_content_mimeType = mime, time = dur \<rparr>"

text \<open>
  The records that the \<open>d3.json\<close> callback of the second script binds to the chart,
  \<open>data = getRequestsFromHar(data)\<close>; there is none when the normalizer throws.
\<close>

definition chartData :: "HarData \<Rightarrow> RequestRecord list" where
  "chartData harData =
     (case snd (getRequestsFromHar config harData) of Inr items \<Rightarrow> items | Inl e \<Rightarrow> [])"

text \<open>
  Sample documents: one entry; three entries; an entry that starts before the page; two
  entries that start with the page and take no time; an entry whose \<open>time\<close> is
  \<open>Infinity\<close> (as \<open>JSON.parse\<close> reads \<open>1e999\<close>); and a document with two pages.
\<close>

definition har_one :: HarData where
  "har_one =
     \<lparr> pages = [sample_page],
       entries = [sample_entry 1500 (Fin 200) ''http://a.com/x.png'' (Some ''image/png'')] \<rparr>"

definition har_three :: HarData where
  "har_three =
     \<lparr> pages = [sample_page],
       entries = [sample_entry 1100 (Fin 300) ''http://a.com/'' (Some ''text/html''),
                  sample_entry 1500 (Fin 200) ''http://a.com/app.js'' (Some ''application/javascript''),
                  sample_entry 1600 (Fin 300) ''http://a.com/x.png'' (Some ''image/png'')] \<rparr>"

definition har_early :: HarData where
  "har_early =
     \<lparr> pages = [sample_page],
       entries = [sample_entry 900 (Fin 50) ''http://a.com/'' (Some ''text/html''),
                  sample_entry 1500 (Fin 200) ''http://a.com/x.png'' (Some ''image/png'')] \<rparr>"

definition har_zero :: HarData where
  "har_zero =
     \<lparr> pages = [sample_page],
       entries = [sample_entry 1000 (Fin 0) ''http://a.com/'' (Some ''text/html''),
                  sample_entry 1000 (Fin 0) ''http://a.com/x.png'' (Some ''image/png'')] \<rparr>"

definition har_inf :: HarData where
  "har_inf =
     \<lparr> pages = [sample_page],
       entries = [sample_entry 1100 PInf ''http://a.com/'' (Some ''text/html''),
                  sample_entry 1500 (Fin 200) ''http://a.com/x.png'' (Some ''image/png'')] \<rparr>"


section \<open>Properties of the number operations\<close>

lemma js_lt_irrefl: "\<not> js_lt x x"
  by (cases x) simp_all

lemma js_le_refl: "x \<noteq> NaN \<Longrightarrow> js_le x x"
  by (simp add: js_le_def js_lt_irrefl)

lemma js_le_trans: "js_le a b \<Longrightarrow> js_le b c \<Longrightarrow> js_le a c"
  unfolding js_le_def by (cases a; cases b; cases c) simp_all

lemma max_step_NaN: "foldl max_step NaN xs = NaN"
  by (induction xs) (simp_all add: max_step_def)

lemma max_step_cases: "max_step a n = NaN \<or> max_step a n = a \<or> max_step a n = n"
  by (simp add: max_step_def)

lemma max_step_le1: "max_step a n \<noteq> NaN \<Longrightarrow> js_le a (max_step a n)"
  unfolding max_step_def js_le_def by (cases a; cases n) (simp_all split: if_splits)

lemma max_step_le2: "max_step a n \<noteq> NaN \<Longrightarrow> js_le n (max_step a n)"
  unfolding max_step_def js_le_def by (cases a; cases n) (simp_all split: if_splits)

lemma foldl_max_step_start: "foldl max_step a xs \<noteq> NaN \<Longrightarrow> a \<noteq> NaN"
proof
  assume "foldl max_step a xs \<noteq> NaN" and "a = NaN"
  then show False by (simp add: max_step_NaN)
qed

lemma foldl_max_step_acc:
  "foldl max_step a xs \<noteq> NaN \<Longrightarrow> js_le a (foldl max_step a xs)"
proof (induction xs arbitrary: a)
  case Nil
  then show ?case by (simp add: js_le_refl)
next
  case (Cons x xs)
  from Cons.prems have r: "foldl max_step (max_step a x) xs \<noteq> NaN" by simp
  then have "max_step a x \<noteq> NaN" by (rule foldl_max_step_start)
  then have "js_le a (max_step a x)" by (rule max_step_le1)
  moreover have "js_le (max_step a x) (foldl max_step (max_step a x) xs)"
    using Cons.IH [OF r] .
  ultimately have "js_le a (foldl max_step (max_step a x) xs)" by (rule js_le_trans)
  then show ?case by simp
qed

lemma foldl_max_step_ub:
  "foldl max_step a xs \<noteq> NaN \<Longrightarrow> x \<in> set xs \<Longrightarrow> js_le x (foldl max_step a xs)"
proof (induction xs arbitrary: a)
  case Nil
  then show ?case by simp
next
  case (Cons y ys)
  from Cons.prems have r: "foldl max_step (max_step a y) ys \<noteq> NaN" by simp
  then have n: "max_step a y \<noteq> NaN" by (rule foldl_max_step_start)
  show ?case
  proof (cases "x = y")
    case True
    have "js_le y (max_step a y)" using n by (rule max_step_le2)
    moreover have "js_le (max_step a y) (foldl max_step (max_step a y) ys)"
      using r by (rule foldl_max_step_acc)
    ultimately have "js_le y (foldl max_step (max_step a y) ys)" by (rule js_le_trans)
    then show ?thesis using True by simp
  next
    case False
    then have "x \<in> set ys" using Cons.prems by simp
    then show ?thesis using Cons.IH [OF r] by simp
  qed
qed

lemma foldl_max_step_mem:
  "foldl max_step a xs \<noteq> NaN \<Longrightarrow> foldl max_step a xs = a \<or> foldl max_step a xs \<in> set xs"
proof (induction xs arbitrary: a)
  case Nil
  then show ?case by simp
next
  case (Cons y ys)
  from Cons.prems have r: "foldl max_step (max_step a y) ys \<noteq> NaN" by simp
  then have n: "max_step a y \<noteq> NaN" by (rule foldl_max_step_start)
  have c: "max_step a y = a \<or> max_step a y = y" using max_step_cases [of a y] n by simp
  from Cons.IH [OF r] have
    "foldl max_step (max_step a y) ys = max_step a y \<or> foldl max_step (max_step a y) ys \<in> set ys" .
  with c show ?case by auto
qed

lemma max_step_NInf: "n \<noteq> NaN \<Longrightarrow> max_step NInf n = n"
  by (cases n) (simp_all add: max_step_def)

lemma Math_max_ub: "Math_max xs \<noteq> NaN \<Longrightarrow> x \<in> set xs \<Longrightarrow> js_le x (Math_max xs)"
  unfolding Math_max_def by (rule foldl_max_step_ub)

lemma Math_max_mem:
  assumes "xs \<noteq> []" and "Math_max xs \<noteq> NaN"
  shows "Math_max xs \<in> set xs"
proof -
  obtain y ys where xs: "xs = y # ys" using assms(1) by (cases xs) auto
  have r: "foldl max_step (max_step NInf y) ys \<noteq> NaN"
    using assms(2) by (simp add: Math_max_def xs)
  then have n: "max_step NInf y \<noteq> NaN" by (rule foldl_max_step_start)
  then have "y \<noteq> NaN" by (auto simp: max_step_def)
  then have my: "max_step NInf y = y" by (rule max_step_NInf)
  from foldl_max_step_mem [OF r] show ?thesis
    by (auto simp: Math_max_def xs my)
qed

lemma foldl_max_step_not_NaN:
  "a \<noteq> NaN \<Longrightarrow> NaN \<notin> set xs \<Longrightarrow> foldl max_step a xs \<noteq> NaN"
proof (induction xs arbitrary: a)
  case Nil
  then show ?case by simp
next
  case (Cons y ys)
  have "y \<noteq> NaN" using Cons.prems(2) by auto
  then have "max_step a y \<noteq> NaN" using Cons.prems(1) by (simp add: max_step_def)
  moreover have "NaN \<notin> set ys" using Cons.prems(2) by simp
  ultimately have "foldl max_step (max_step a y) ys \<noteq> NaN" by (rule Cons.IH)
  then show ?case by simp
qed

lemma Math_max_not_NaN: "NaN \<notin> set xs \<Longrightarrow> Math_max xs \<noteq> NaN"
  unfolding Math_max_def by (rule foldl_max_step_not_NaN) simp_all

lemma Math_max_Nil: "Math_max [] = NInf"
  by (simp add: Math_max_def)

section \<open>Properties of the scale computation\<close>

lemma zoom_scaleX:
  "scaleX (snd (zoomToElements cfg data fo mo)) =
     axisScale (filteredMax_x data (filter_or_all fo)) (fullMax_x data) (margin_or_0 mo)"
  by (simp add: zoomToElements_def Let_def axisScale_def filteredMax_x_def fullMax_x_def)

lemma zoom_scaleY:
  "scaleY (snd (zoomToElements cfg data fo mo)) =
     axisScale (filteredMax_y cfg data (filter_or_all fo)) (fullMax_y cfg data) (margin_or_0 mo)"
  by (simp add: zoomToElements_def Let_def axisScale_def filteredMax_y_def fullMax_y_def)

lemma Math_min_Fin: "Math_min [Fin p, Fin b] = Fin (min p b)"
  by (simp add: Math_min_def min_step_def min_def)

lemma axisScale_eq: "\<not> js_lt fm mx \<Longrightarrow> axisScale fm mx m = js_div mx fm"
  by (simp add: axisScale_def)

lemma js_div_self: "r \<noteq> 0 \<Longrightarrow> js_div (Fin r) (Fin r) = Fin 1"
  by (simp add: js_div_def mk_fin_def)

lemma axisScale_formula:
  assumes "0 \<le> a" "a < b" "- 1 \<le> q"
  shows "axisScale (Fin a) (Fin b) (Fin q) =
           (if min (a * (1 + q)) b = 0 then PInf else Fin (b / min (a * (1 + q)) b))"
proof -
  have p: "0 \<le> a * (1 + q)" using assms by simp
  have m: "js_mul (Fin a) (js_add (Fin 1) (Fin q)) = Fin (a * (1 + q))"
    using assms p by (simp add: js_mul_def js_add_def mk_fin_def not_less)
  have c: "0 \<le> min (a * (1 + q)) b" using p assms by simp
  have b: "0 < b" using assms by simp
  show ?thesis using assms c b
    by (simp add: axisScale_def m Math_min_Fin js_div_def mk_fin_def mk_inf_def not_less)
qed

lemma axisScale_ge_1:
  assumes "0 \<le> a" "a \<le> b" "0 < b" "- 1 \<le> q"
  shows "js_le (Fin 1) (axisScale (Fin a) (Fin b) (Fin q))"
proof (cases "a < b")
  case True
  define c where "c = min (a * (1 + q)) b"
  have p: "0 \<le> a * (1 + q)" using assms by simp
  then have c: "0 \<le> c" using assms by (simp add: c_def)
  have cb: "c \<le> b" by (simp add: c_def)
  have s: "axisScale (Fin a) (Fin b) (Fin q) = (if c = 0 then PInf else Fin (b / c))"
    using True assms by (simp add: axisScale_formula c_def)
  show ?thesis
  proof (cases "c = 0")
    case True
    then show ?thesis by (simp add: s js_le_def)
  next
    case False
    then have "0 < c" using c by simp
    then have "1 \<le> b / c" using cb by simp
    then show ?thesis using False by (simp add: s js_le_def not_less)
  qed
next
  case False
  then have "a = b" using assms by simp
  then show ?thesis using assms by (simp add: axisScale_def js_div_self js_le_def)
qed


lemma axisScale_NInf:
  assumes "js_isFinite mx" "- 1 < q"
  shows "axisScale NInf mx (Fin q) = (if sign_neg mx then Fin 0 else NZero)"
proof -
  have a: "js_add (Fin 1) (Fin q) = Fin (1 + q)" by (simp add: js_add_def)
  have m: "js_mul NInf (Fin (1 + q)) = NInf"
    using assms by (simp add: js_mul_def mk_inf_def)
  show ?thesis using assms(1)
    by (cases mx) (simp_all add: axisScale_def a m Math_min_def min_step_def js_div_def mk_fin_def)
qed


lemma margin_or_0_Fin: "margin_or_0 (Some (Fin q)) = Fin q"
  by simp

lemma map_zip_fst: "length xs = length ys \<Longrightarrow> map (\<lambda>p. g (fst p)) (zip xs ys) = map g xs"
  by (induction xs ys rule: list_induct2) simp_all

lemma map_zip_snd: "length xs = length ys \<Longrightarrow> map (\<lambda>p. g (snd p)) (zip xs ys) = map g ys"
  by (induction xs ys rule: list_induct2) simp_all

lemma map_x_assignIndex: "map getXCoordinate (assignIndex data) = map end_time data"
  by (simp add: assignIndex_def getXCoordinate_def comp_def case_prod_beta map_zip_fst)

lemma y_config: "getYCoordinate config (d \<lparr> index := Some i \<rparr>) = Fin (12 * of_nat i)"
  by (simp add: getYCoordinate_def config_def js_add_def js_mul_def mk_fin_def)

lemma map_y_assignIndex:
  "map (getYCoordinate config) (assignIndex data) =
     map (\<lambda>i. Fin (12 * of_nat i)) [0..<length data]"
  by (simp add: assignIndex_def comp_def case_prod_beta y_config
      map_zip_snd [where g = "\<lambda>i. Fin (12 * of_nat i)"])

lemma y_values:
  "set (map (getYCoordinate config) (assignIndex data)) =
     (\<lambda>i. Fin (12 * of_nat i)) ` {0..<length data}"
  by (simp add: map_y_assignIndex)

lemma fullMax_y_config:
  assumes "data \<noteq> []"
  shows "fullMax_y config data = Fin (12 * of_nat (length data - 1))"
proof -
  let ?ys = "map (getYCoordinate config) (assignIndex data)"
  have ne: "?ys \<noteq> []" using assms by (simp add: assignIndex_def)
  have nn: "Math_max ?ys \<noteq> NaN"
    by (rule Math_max_not_NaN) (unfold y_values, auto)
  have "Math_max ?ys \<in> set ?ys" using ne nn by (rule Math_max_mem)
  then obtain i where i: "i < length data" "Math_max ?ys = Fin (12 * of_nat i)"
    unfolding y_values by auto
  have "Fin (12 * of_nat (length data - 1)) \<in> set ?ys"
    unfolding y_values using assms by auto
  then have "js_le (Fin (12 * of_nat (length data - 1))) (Math_max ?ys)"
    using nn by (simp add: Math_max_ub)
  then have "length data - 1 \<le> i" by (simp add: i js_le_def not_less)
  then have "i = length data - 1" using i(1) by simp
  then show ?thesis using i(2) by (simp add: fullMax_y_def)
qed

lemma filteredMax_y_config:
  assumes "filter f (assignIndex data) \<noteq> []"
  shows "\<exists>i<length data. filteredMax_y config data f = Fin (12 * of_nat i)"
proof -
  let ?ys = "map (getYCoordinate config) (filter f (assignIndex data))"
  have sub: "set ?ys \<subseteq> set (map (getYCoordinate config) (assignIndex data))" by auto
  have ne: "?ys \<noteq> []" using assms by simp
  have "NaN \<notin> set (map (getYCoordinate config) (assignIndex data))"
    unfolding y_values by auto
  then have "NaN \<notin> set ?ys" using sub by blast
  then have nn: "Math_max ?ys \<noteq> NaN" by (rule Math_max_not_NaN)
  have "Math_max ?ys \<in> set ?ys" using ne nn by (rule Math_max_mem)
  then have "Math_max ?ys \<in> (\<lambda>i. Fin (12 * of_nat i)) ` {0..<length data}"
    using sub unfolding y_values by blast
  then show ?thesis by (auto simp: filteredMax_y_def)
qed

lemma filteredMax_x_le:
  assumes "filter f (assignIndex data) \<noteq> []"
    and "filteredMax_x data f \<noteq> NaN" and "fullMax_x data \<noteq> NaN"
  shows "js_le (filteredMax_x data f) (fullMax_x data)"
proof -
  let ?xs = "map getXCoordinate (filter f (assignIndex data))"
  have "?xs \<noteq> []" using assms(1) by simp
  then have "Math_max ?xs \<in> set ?xs"
    using assms(2) unfolding filteredMax_x_def by (rule Math_max_mem)
  then have "Math_max ?xs \<in> set (map getXCoordinate (assignIndex data))" by auto
  then show ?thesis
    using assms(3) unfolding filteredMax_x_def fullMax_x_def by (simp add: Math_max_ub)
qed

lemma filter_all: "\<forall>d\<in>set xs. f d \<Longrightarrow> filter f xs = xs"
  by (induction xs) simp_all

lemma filter_none: "\<forall>d\<in>set xs. \<not> f d \<Longrightarrow> filter f xs = []"
  by (induction xs) simp_all

lemma zoom_snd:
  "snd (zoomToElements cfg data fo mo) =
     \<lparr> scaleX = axisScale (filteredMax_x data (filter_or_all fo)) (fullMax_x data) (margin_or_0 mo),
       scaleY = axisScale (filteredMax_y cfg data (filter_or_all fo)) (fullMax_y cfg data) (margin_or_0 mo) \<rparr>"
  by (simp add: zoomToElements_def Let_def axisScale_def filteredMax_x_def fullMax_x_def
      filteredMax_y_def fullMax_y_def)

lemma finite_nonzero_Fin: "js_isFinite x \<Longrightarrow> \<not> js_isZero x \<Longrightarrow> \<exists>r. x = Fin r \<and> r \<noteq> 0"
  by (cases x) simp_all

lemma pos_finite_Fin: "js_lt (Fin 0) x \<Longrightarrow> js_isFinite x \<Longrightarrow> \<exists>r. x = Fin r \<and> 0 < r"
  by (cases x) simp_all

lemma margin_cases:
  assumes "mo = None \<or> (\<exists>m. mo = Some (Fin m) \<and> - 1 \<le> m)"
  shows "\<exists>q. margin_or_0 mo = Fin q \<and> - 1 \<le> q"
  using assms by (auto simp: margin_or_0_Fin simp del: margin_or_0.simps(2))

section \<open>Properties of the normalizer\<close>

lemma indexOf_sublist: "(indexOf s pat > - 1) = sublist pat s"
proof (induction s)
  case Nil
  then show ?case by simp
next
  case (Cons c cs)
  show ?case
  proof (cases "prefix pat (c # cs)")
    case True
    then show ?thesis by (simp add: sublist_Cons_right)
  next
    case False
    have "(indexOf (c # cs) pat > - 1) = (indexOf cs pat > - 1)"
      using False by (simp add: Let_def)
    then show ?thesis using False Cons.IH by (simp add: sublist_Cons_right)
  qed
qed

lemma indexOf_char:
  "indexOf s [c] = (if c \<in> set s then int (length (takeWhile (\<lambda>x. x \<noteq> c) s)) else - 1)"
  by (induction s) (auto simp: Let_def)

lemma substring_split: "substring s 0 i @ substring_from s i = s"
  by (simp add: substring_def substring_from_def Let_def min_def max_def)

lemma substring_0_nat: "n \<le> length s \<Longrightarrow> substring s 0 (int n) = take n s"
  by (simp add: substring_def Let_def min_def max_def)

lemma substring_from_nat: "n \<le> length s \<Longrightarrow> substring_from s (int n) = drop n s"
  by (simp add: substring_def substring_from_def Let_def min_def max_def)

lemma substring_0_neg: "substring s 0 (- 1) = []"
  by (simp add: substring_def Let_def)

lemma substring_from_neg: "substring_from s (- 1) = s"
  by (simp add: substring_def substring_from_def Let_def)

lemma mkItem_url: "url (mkItem sd e) = domain (mkItem sd e) @ path (mkItem sd e)"
  by (simp add: mkItem_def Let_def substring_split)

lemma mkItem_split:
  "domain (mkItem sd e) =
     (if CHR ''/'' \<in> set (url (mkItem sd e))
      then takeWhile (\<lambda>c. c \<noteq> CHR ''/'') (url (mkItem sd e)) else [])
   \<and> path (mkItem sd e) =
     (if CHR ''/'' \<in> set (url (mkItem sd e))
      then dropWhile (\<lambda>c. c \<noteq> CHR ''/'') (url (mkItem sd e)) else url (mkItem sd e))"
  by (simp add: mkItem_def Let_def indexOf_char substring_0_nat substring_from_nat
      substring_0_neg substring_from_neg length_takeWhile_le
      takeWhile_eq_take [symmetric] dropWhile_eq_drop [symmetric])

lemma mkItem_timing:
  "start (mkItem sd e) = date_diff (entry_startedDateTime e) sd
   \<and> duration (mkItem sd e) = time e
   \<and> end_time (mkItem sd e) = Math_round (js_add (start (mkItem sd e)) (duration (mkItem sd e)))"
  by (simp add: mkItem_def Let_def)

lemma addTags_fields:
  "url (addTags cfg it) = url it" "domain (addTags cfg it) = domain it"
  "path (addTags cfg it) = path it" "start (addTags cfg it) = start it"
  "duration (addTags cfg it) = duration it" "end_time (addTags cfg it) = end_time it"
  "type (addTags cfg it) = type it" "originalUrl (addTags cfg it) = originalUrl it"
  "tags (addTags cfg it) = getFileTags cfg it" "index (addTags cfg it) = None"
  by (simp_all add: addTags_def RawItem.defs)

lemma foldl_update_keys:
  "fst ` set (foldl (\<lambda>tags (tagName, rule). AList.update tagName (g rule) tags) acc rules) =
     fst ` set acc \<union> fst ` set rules"
proof (induction rules arbitrary: acc)
  case Nil
  then show ?case by simp
next
  case (Cons p ps)
  obtain k r where p: "p = (k, r)" by (cases p)
  show ?case by (simp add: p Cons.IH dom_update)
qed

lemma foldl_update_distinct:
  "distinct (map fst acc) \<Longrightarrow>
   distinct (map fst (foldl (\<lambda>tags (tagName, rule). AList.update tagName (g rule) tags) acc rules))"
proof (induction rules arbitrary: acc)
  case Nil
  then show ?case by simp
next
  case (Cons p ps)
  obtain k r where p: "p = (k, r)" by (cases p)
  have "distinct (map fst (AList.update k (g r) acc))"
    using Cons.prems by (rule distinct_update)
  then show ?case by (simp add: p Cons.IH)
qed

lemma getFileTags_fold:
  "getFileTags cfg entry =
     foldl (\<lambda>tags (tagName, rule).
              AList.update tagName
                (Boolean ((case rule of Pattern regex \<Rightarrow> getMatchFunction regex | Predicate f \<Rightarrow> f) entry))
                tags)
           [] (fileTags cfg)"
  by (simp add: getFileTags_def Let_def)

lemma getFileTags_keys: "fst ` set (getFileTags cfg entry) = fst ` set (fileTags cfg)"
  unfolding getFileTags_fold
  using foldl_update_keys
    [where g = "\<lambda>rule. Boolean ((case rule of Pattern regex \<Rightarrow> getMatchFunction regex | Predicate f \<Rightarrow> f) entry)"
       and acc = "[]" and rules = "fileTags cfg"]
  by simp

lemma getFileTags_distinct: "distinct (map fst (getFileTags cfg entry))"
  unfolding getFileTags_fold
  using foldl_update_distinct
    [where g = "\<lambda>rule. Boolean ((case rule of Pattern regex \<Rightarrow> getMatchFunction regex | Predicate f \<Rightarrow> f) entry)"
       and acc = "[]" and rules = "fileTags cfg"]
  by simp

lemma getRequestsFromHar_pages:
  assumes "pages harData = page0 # rest"
  shows "getRequestsFromHar cfg harData =
           (harData \<lparr> entries := firstPageEntries harData \<rparr>,
            Inr (filter (\<lambda>item. js_le (start item) (pageTimings_onLoad page0))
                   (map (addTags cfg) (map (mkItem (startedDateTime page0)) (firstPageEntries harData)))))"
  using assms by (simp add: getRequestsFromHar_def Let_def)

lemma getRequestsFromHar_no_page:
  "pages harData = [] \<Longrightarrow> getRequestsFromHar cfg harData = (harData, Inl TypeError)"
  by (simp add: getRequestsFromHar_def)

lemma firstPageEntries_subset: "set (firstPageEntries harData) \<subseteq> set (entries harData)"
  by (auto simp: firstPageEntries_def)


lemma normalized_record:
  assumes "getRequestsFromHar cfg harData = (harData', Inr items)" and "r \<in> set items"
  shows "\<exists>e\<in>set (entries harData). r = addTags cfg (mkItem (startedDateTime (hd (pages harData))) e)"
proof (cases "pages harData")
  case Nil
  then show ?thesis using assms by (simp add: getRequestsFromHar_no_page)
next
  case (Cons page0 rest)
  from assms have "r \<in> addTags cfg ` mkItem (startedDateTime page0) ` set (firstPageEntries harData)"
    by (auto simp: getRequestsFromHar_pages [OF Cons])
  then show ?thesis using firstPageEntries_subset [of harData] Cons by auto
qed

lemma getFileTags_v1_keys_aux:
  "fst ` set (foldl (\<lambda>tags (tagName, regex). if regex u then AList.update tagName True tags else tags)
                 acc rules) =
     fst ` set acc \<union> fst ` {p \<in> set rules. snd p u}"
proof (induction rules arbitrary: acc)
  case Nil
  then show ?case by simp
next
  case (Cons p ps)
  obtain k r where p: "p = (k, r)" by (cases p)
  have s: "{q \<in> set (p # ps). snd q u} =
             (if r u then insert (k, r) {q \<in> set ps. snd q u} else {q \<in> set ps. snd q u})"
    by (auto simp: p)
  show ?case
  proof (cases "r u")
    case True
    then show ?thesis unfolding s by (simp add: p Cons.IH dom_update)
  next
    case False
    then show ?thesis unfolding s by (simp add: p Cons.IH)
  qed
qed

lemma getFileTags_v1_true_aux:
  "\<forall>p\<in>set acc. snd p \<Longrightarrow>
   \<forall>p\<in>set (foldl (\<lambda>tags (tagName, regex). if regex u then AList.update tagName True tags else tags)
                 acc rules). snd p"
proof (induction rules arbitrary: acc)
  case Nil
  then show ?case by simp
next
  case (Cons p ps)
  obtain k r where p: "p = (k, r)" by (cases p)
  have "\<forall>p\<in>set (AList.update k True acc). snd p"
    using Cons.prems by (induction acc) auto
  then show ?case using Cons.prems by (simp add: p Cons.IH)
qed

lemma getFileTags_v1_keys:
  "fst ` set (getFileTags_v1 cfg u) = fst ` {p \<in> set (fileTags_v1 cfg). snd p u}"
  by (simp add: getFileTags_v1_def getFileTags_v1_keys_aux)

lemma getFileTags_v1_true: "\<forall>p\<in>set (getFileTags_v1 cfg u). snd p"
  unfolding getFileTags_v1_def by (rule getFileTags_v1_true_aux) simp





section \<open>The records of the sample documents\<close>

lemma chartData_har_one:
  "chartData har_one =
     [\<lparr> type = ''image'', originalUrl = ''http://a.com/x.png'', url = ''a.com/x.png'',
        domain = ''a.com'', path = ''/x.png'', start = Fin 500, duration = Fin 200,
        end_time = Fin 700,
        tags = [(''scriptLoader'', False), (''mainScript'', False),
                (''firstParty'', False), (''stats'', False)],
        index = None \<rparr>]"
  by code_simp

lemma chartData_har_three:
  "chartData har_three =
     [\<lparr> type = ''other'', originalUrl = ''http://a.com/'', url = ''a.com/'',
        domain = ''a.com'', path = ''/'', start = Fin 100, duration = Fin 300,
        end_time = Fin 400,
        tags = [(''scriptLoader'', False), (''mainScript'', False),
                (''firstParty'', False), (''stats'', False)],
        index = None \<rparr>,
      \<lparr> type = ''script'', originalUrl = ''http://a.com/app.js'', url = ''a.com/app.js'',
        domain = ''a.com'', path = ''/app.js'', start = Fin 500, duration = Fin 200,
        end_time = Fin 700,
        tags = [(''scriptLoader'', False), (''mainScript'', False),
                (''firstParty'', False), (''stats'', False)],
        index = None \<rparr>,
      \<lparr> type = ''image'', originalUrl = ''http://a.com/x.png'', url = ''a.com/x.png'',
        domain = ''a.com'', path = ''/x.png'', start = Fin 600, duration = Fin 300,
        end_time = Fin 900,
        tags = [(''scriptLoader'', False), (''mainScript'', False),
                (''firstParty'', False), (''stats'', False)],
        index = None \<rparr>]"
  by code_simp

lemma chartData_har_early:
  "chartData har_early =
     [\<lparr> type = ''other'', originalUrl = ''http://a.com/'', url = ''a.com/'',
        domain = ''a.com'', path = ''/'', start = Fin (- 100), duration = Fin 50,
        end_time = Fin (- 50),
        tags = [(''scriptLoader'', False), (''mainScript'', False),
                (''firstParty'', False), (''stats'', False)],
        index = None \<rparr>,
      \<lparr> type = ''image'', originalUrl = ''http://a.com/x.png'', url = ''a.com/x.png'',
        domain = ''a.com'', path = ''/x.png'', start = Fin 500, duration = Fin 200,
        end_time = Fin 700,
        tags = [(''scriptLoader'', False), (''mainScript'', False),
                (''firstParty'', False), (''stats'', False)],
        index = None \<rparr>]"
  by code_simp

lemma chartData_har_zero:
  "chartData har_zero =
     [\<lparr> type = ''other'', originalUrl = ''http://a.com/'', url = ''a.com/'',
        domain = ''a.com'', path = ''/'', start = Fin 0, duration = Fin 0,
        end_time = Fin 0,
        tags = [(''scriptLoader'', False), (''mainScript'', False),
                (''firstParty'', False), (''stats'', False)],
        index = None \<rparr>,
      \<lparr> type = ''image'', originalUrl = ''http://a.com/x.png'', url = ''a.com/x.png'',
        domain = ''a.com'', path = ''/x.png'', start = Fin 0, duration = Fin 0,
        end_time = Fin 0,
        tags = [(''scriptLoader'', False), (''mainScript'', False),
                (''firstParty'', False), (''stats'', False)],
        index = None \<rparr>]"
  by code_simp

lemma chartData_har_inf:
  "chartData har_inf =
     [\<lparr> type = ''other'', originalUrl = ''http://a.com/'', url = ''a.com/'',
        domain = ''a.com'', path = ''/'', start = Fin 100, duration = PInf,
        end_time = PInf,
        tags = [(''scriptLoader'', False), (''mainScript'', False),
                (''firstParty'', False), (''stats'', False)],
        index = None \<rparr>,
      \<lparr> type = ''image'', originalUrl = ''http://a.com/x.png'', url = ''a.com/x.png'',
        domain = ''a.com'', path = ''/x.png'', start = Fin 500, duration = Fin 200,
        end_time = Fin 700,
        tags = [(''scriptLoader'', False), (''mainScript'', False),
                (''firstParty'', False), (''stats'', False)],
        index = None \<rparr>]"
  by code_simp

section \<open>Claims about the normalizer\<close>

text \<open>
  C9. \<open>mimeToFiletype\<close> returns the type of the first of \<open>image\<close>, \<open>script\<close>, \<open>css\<close>
  (as \<open>style\<close>) and \<open>font\<close> that occurs in the MIME type as a substring, and \<open>other\<close>
  when none occurs. \<open>image/png\<close> gives \<open>image\<close>, \<open>application/javascript\<close> gives
  \<open>script\<close>, and an empty or missing MIME type gives \<open>other\<close>.
\<close>

theorem mimeToFiletype_priority:
  "mimeToFiletype m =
     (if sublist ''image'' m then ''image''
      else if sublist ''script'' m then ''script''
      else if sublist ''css'' m then ''style''
      else if sublist ''font'' m then ''font''
      else ''other'')
   \<and> mimeToFiletype ''image/png'' = ''image''
   \<and> mimeToFiletype ''application/javascript'' = ''script''
   \<and> mimeToFiletype (mimeType_or_empty (Some [])) = ''other''
   \<and> mimeToFiletype (mimeType_or_empty None) = ''other''"
proof -
  have general: "mimeToFiletype s =
     (if sublist ''image'' s then ''image''
      else if sublist ''script'' s then ''script''
      else if sublist ''css'' s then ''style''
      else if sublist ''font'' s then ''font''
      else ''other'')" for s
    unfolding mimeToFiletype_def indexOf_sublist by (rule refl)
  have png: "mimeToFiletype ''image/png'' = ''image''" by code_simp
  have js: "mimeToFiletype ''application/javascript'' = ''script''" by code_simp
  have empty: "mimeToFiletype [] = ''other''" by code_simp
  show ?thesis using general [of m] png js empty by simp
qed

text \<open>
  C6. For a document with a single page, the second script returns exactly the records
  of the entries whose start time, relative to the start of the page, is at most the
  \<open>onLoad\<close> offset of the page, in the order of the entries; the document is unchanged.
\<close>

theorem normalizer_single_page:
  assumes "pages harData = [page0]"
  shows "getRequestsFromHar cfg harData =
           (harData,
            Inr (map (\<lambda>e. addTags cfg (mkItem (startedDateTime page0) e))
                   (filter (\<lambda>e. js_le (date_diff (entry_startedDateTime e) (startedDateTime page0))
                                      (pageTimings_onLoad page0))
                      (entries harData))))"
proof -
  have single: "firstPageEntries harData = entries harData"
    using assms by (simp add: firstPageEntries_def)
  have start: "start (addTags cfg (mkItem sd e)) = date_diff (entry_startedDateTime e) sd" for sd e
    by (simp add: addTags_fields mkItem_timing)
  show ?thesis
    by (simp add: getRequestsFromHar_pages [OF assms] single filter_map comp_def start)
qed

theorem normalizer_single_page_witness:
  "getRequestsFromHar config
     \<lparr> pages = [sample_page],
       entries = [sample_entry 1500 (Fin 200) ''http://a.com/x.png'' (Some ''image/png''),
                  sample_entry 3500 (Fin 10) ''http://a.com/late.js'' None,
                  sample_entry 1100 (Fin 300) ''http://a.com/'' (Some ''text/html'')] \<rparr> =
     (\<lparr> pages = [sample_page],
        entries = [sample_entry 1500 (Fin 200) ''http://a.com/x.png'' (Some ''image/png''),
                   sample_entry 3500 (Fin 10) ''http://a.com/late.js'' None,
                   sample_entry 1100 (Fin 300) ''http://a.com/'' (Some ''text/html'')] \<rparr>,
      Inr [addTags config (mkItem (Some 1000)
             (sample_entry 1500 (Fin 200) ''http://a.com/x.png'' (Some ''image/png''))),
           addTags config (mkItem (Some 1000)
             (sample_entry 1100 (Fin 300) ''http://a.com/'' (Some ''text/html'')))])"
proof -
  have p: "pages \<lparr> pages = [sample_page],
       entries = [sample_entry 1500 (Fin 200) ''http://a.com/x.png'' (Some ''image/png''),
                  sample_entry 3500 (Fin 10) ''http://a.com/late.js'' None,
                  sample_entry 1100 (Fin 300) ''http://a.com/'' (Some ''text/html'')] \<rparr>
         = [sample_page]" by simp
  show ?thesis
    unfolding normalizer_single_page [OF p]
    by (simp add: sample_page_def sample_entry_def js_le_def)
qed

text \<open>
  C7. Every record returned by the second script has \<open>url = domain + path\<close>. When the
  abbreviated URL contains a slash, \<open>domain\<close> is the part before the first slash and
  \<open>path\<close> the rest, the slash included; when it contains none, \<open>domain\<close> is empty and
  \<open>path\<close> is the whole URL.
\<close>

theorem normalizer_url_split:
  assumes "getRequestsFromHar cfg harData = (harData', Inr items)"
  shows "\<forall>r\<in>set items.
           url r = domain r @ path r
           \<and> (if CHR ''/'' \<in> set (url r)
               then domain r = takeWhile (\<lambda>c. c \<noteq> CHR ''/'') (url r)
                    \<and> path r = dropWhile (\<lambda>c. c \<noteq> CHR ''/'') (url r)
               else domain r = [] \<and> path r = url r)"
proof
  fix r assume "r \<in> set items"
  then obtain e where r: "r = addTags cfg (mkItem (startedDateTime (hd (pages harData))) e)"
    using normalized_record [OF assms] by blast
  show "url r = domain r @ path r
        \<and> (if CHR ''/'' \<in> set (url r)
            then domain r = takeWhile (\<lambda>c. c \<noteq> CHR ''/'') (url r)
                 \<and> path r = dropWhile (\<lambda>c. c \<noteq> CHR ''/'') (url r)
            else domain r = [] \<and> path r = url r)"
    unfolding r addTags_fields
    using mkItem_url [of "startedDateTime (hd (pages harData))" e]
      mkItem_split [of "startedDateTime (hd (pages harData))" e]
    by simp
qed

theorem normalizer_url_split_witness:
  "list_all
     (\<lambda>r. url r = domain r @ path r
          \<and> (if CHR ''/'' \<in> set (url r)
              then domain r = takeWhile (\<lambda>c. c \<noteq> CHR ''/'') (url r)
                   \<and> path r = dropWhile (\<lambda>c. c \<noteq> CHR ''/'') (url r)
              else domain r = [] \<and> path r = url r))
     [addTags config (mkItem (Some 1000)
        (sample_entry 1500 (Fin 200) ''https://www.example.com/a/b?x=1#y'' None)),
      addTags config (mkItem (Some 1000)
        (sample_entry 1600 (Fin 20) ''http://example.com'' None))]"
proof -
  have p: "pages \<lparr> pages = [sample_page],
       entries = [sample_entry 1500 (Fin 200) ''https://www.example.com/a/b?x=1#y'' None,
                  sample_entry 1600 (Fin 20) ''http://example.com'' None] \<rparr> = [sample_page]"
    by simp
  have run: "getRequestsFromHar config
      \<lparr> pages = [sample_page],
        entries = [sample_entry 1500 (Fin 200) ''https://www.example.com/a/b?x=1#y'' None,
                   sample_entry 1600 (Fin 20) ''http://example.com'' None] \<rparr> =
      (\<lparr> pages = [sample_page],
         entries = [sample_entry 1500 (Fin 200) ''https://www.example.com/a/b?x=1#y'' None,
                    sample_entry 1600 (Fin 20) ''http://example.com'' None] \<rparr>,
       Inr [addTags config (mkItem (Some 1000)
              (sample_entry 1500 (Fin 200) ''https://www.example.com/a/b?x=1#y'' None)),
            addTags config (mkItem (Some 1000)
              (sample_entry 1600 (Fin 20) ''http://example.com'' None))])"
    unfolding getRequestsFromHar_pages [OF p]
    by (simp add: firstPageEntries_def sample_page_def sample_entry_def addTags_fields
        mkItem_timing js_le_def)
  show ?thesis unfolding list_all_iff by (rule normalizer_url_split [OF run])
qed



text \<open>
  C3, as amended. In the second script, whose tag rules are patterns or functions, the
  \<open>tags\<close> object of every returned record has exactly the names of \<open>config.fileTags\<close>
  as keys, each once and each bound to a boolean. In the first script \<open>getFileTags\<close>
  sets only the names whose expression matches the URL, each to \<open>true\<close>.
\<close>

theorem normalizer_tags_total:
  assumes "getRequestsFromHar cfg harData = (harData', Inr items)"
  shows "(\<forall>r\<in>set items.
            dom (map_of (tags r)) = fst ` set (fileTags cfg) \<and> distinct (map fst (tags r)))
       \<and> fst ` set (getFileTags_v1 cfg1 u) = fst ` {p \<in> set (fileTags_v1 cfg1). snd p u}
       \<and> (\<forall>p\<in>set (getFileTags_v1 cfg1 u). snd p)"
proof (intro conjI ballI)
  fix r assume "r \<in> set items"
  then obtain e where r: "r = addTags cfg (mkItem (startedDateTime (hd (pages harData))) e)"
    using normalized_record [OF assms] by blast
  show "dom (map_of (tags r)) = fst ` set (fileTags cfg)"
    unfolding r addTags_fields by (simp add: dom_map_of_conv_image_fst getFileTags_keys)
  show "distinct (map fst (tags r))"
    unfolding r addTags_fields by (rule getFileTags_distinct)
next
  show "fst ` set (getFileTags_v1 cfg1 u) = fst ` {p \<in> set (fileTags_v1 cfg1). snd p u}"
    by (rule getFileTags_v1_keys)
next
  fix p assume "p \<in> set (getFileTags_v1 cfg1 u)"
  then show "snd p" using getFileTags_v1_true by blast
qed

theorem normalizer_tags_total_witness:
  "list_all
     (\<lambda>r. dom (map_of (tags r)) = {''scriptLoader'', ''mainScript'', ''firstParty'', ''stats''}
          \<and> distinct (map fst (tags r)))
     (chartData har_one)
   \<and> fst ` set (getFileTags_v1 config_v1_initial ''a.com/require.js'') = {''scriptLoader''}
   \<and> list_all snd (getFileTags_v1 config_v1_initial ''a.com/require.js'')"
proof -
  have run: "getRequestsFromHar config har_one = (har_one, Inr (chartData har_one))"
    by (simp add: chartData_def har_one_def getRequestsFromHar_def Let_def firstPageEntries_def)
  have keys: "fst ` set (fileTags config) = {''scriptLoader'', ''mainScript'', ''firstParty'', ''stats''}"
    by (simp add: config_def)
  have m: "fst ` {p \<in> set (fileTags_v1 config_v1_initial). snd p ''a.com/require.js''} = {''scriptLoader''}"
    by code_simp
  show ?thesis
    using normalizer_tags_total [OF run, of config_v1_initial "''a.com/require.js''"]
    unfolding keys m list_all_iff by simp
qed

text \<open>
  The first script returns the record of \<open>har_one\<close> with an empty \<open>tags\<close> object, although
  two tag names are configured.
\<close>

theorem getFileTags_v1_omits_counterexample:
  "map tags (case snd (snd (getRequestsFromHar_v1 config_v1_initial har_one)) of
               Inr items \<Rightarrow> items | Inl e \<Rightarrow> []) = [[]]
   \<and> map fst (fileTags_v1 config_v1_initial) = [''scriptLoader'', ''mainScript'']"
  by code_simp




section \<open>Claims about the viewport fit\<close>

text \<open>
  C1, as amended. For at least two records whose largest \<open>end\<close> is a finite number other
  than zero, and a filter that matches every record or is omitted, \<open>zoomToElements\<close>
  writes the identity scale, whatever the margin. (With a single record the vertical
  maximum is \<open>0\<close> and the vertical scale is \<open>0 / 0\<close>.)
\<close>

theorem zoom_match_all_identity:
  assumes "2 \<le> length data"
    and "js_isFinite (fullMax_x data)" and "\<not> js_isZero (fullMax_x data)"
    and "\<forall>d\<in>set (assignIndex data). filter_or_all fo d"
  shows "snd (zoomToElements config data fo mo) = \<lparr> scaleX = Fin 1, scaleY = Fin 1 \<rparr>"
proof -
  have all: "filter (filter_or_all fo) (assignIndex data) = assignIndex data"
    using assms(4) by (rule filter_all)
  have fx: "filteredMax_x data (filter_or_all fo) = fullMax_x data"
    by (simp add: filteredMax_x_def fullMax_x_def all)
  have fy: "filteredMax_y config data (filter_or_all fo) = fullMax_y config data"
    by (simp add: filteredMax_y_def fullMax_y_def all)
  obtain r where r: "fullMax_x data = Fin r" "r \<noteq> 0"
    using finite_nonzero_Fin [OF assms(2,3)] by auto
  have ne: "data \<noteq> []" using assms(1) by auto
  have my: "fullMax_y config data = Fin (12 * of_nat (length data - 1))"
    using ne by (rule fullMax_y_config)
  have nz: "(12::rat) * of_nat (length data - 1) \<noteq> 0" using assms(1) by simp
  have x: "axisScale (fullMax_x data) (fullMax_x data) (margin_or_0 mo) = Fin 1"
    by (simp add: axisScale_eq js_lt_irrefl r js_div_self)
  have y: "axisScale (fullMax_y config data) (fullMax_y config data) (margin_or_0 mo) = Fin 1"
    using nz by (simp add: axisScale_eq js_lt_irrefl my js_div_self)
  show ?thesis by (simp add: zoom_snd fx fy x y)
qed

theorem zoom_match_all_identity_witness:
  "snd (zoomToElements config (chartData har_three) None (Some (Fin (1 / 10)))) =
     \<lparr> scaleX = Fin 1, scaleY = Fin 1 \<rparr>"
proof -
  have 1: "2 \<le> length (chartData har_three)"
    unfolding chartData_har_three by code_simp
  have 2: "js_isFinite (fullMax_x (chartData har_three))"
    unfolding chartData_har_three by code_simp
  have 3: "\<not> js_isZero (fullMax_x (chartData har_three))"
    unfolding chartData_har_three by code_simp
  have 4: "\<forall>d\<in>set (assignIndex (chartData har_three)). filter_or_all None d" by simp
  show ?thesis by (rule zoom_match_all_identity [OF 1 2 3 4])
qed

text \<open>
  With the single record of \<open>har_one\<close> the vertical scale is \<open>NaN\<close>, with or without a
  filter; with the two records of \<open>har_zero\<close>, which end at 0, the horizontal scale is \<open>NaN\<close>.
\<close>

theorem zoom_match_all_counterexample:
  "snd (zoomToElements config (chartData har_one) None None) = \<lparr> scaleX = Fin 1, scaleY = NaN \<rparr>
   \<and> snd (zoomToElements config (chartData har_one) (Some (\<lambda>d. True)) (Some (Fin (1 / 10)))) =
       \<lparr> scaleX = Fin 1, scaleY = NaN \<rparr>
   \<and> snd (zoomToElements config (chartData har_zero) None None) =
       \<lparr> scaleX = NaN, scaleY = Fin 1 \<rparr>"
  unfolding chartData_har_one chartData_har_zero by code_simp




text \<open>
  C5, as amended. For records whose largest \<open>end\<close> is finite, a filter that matches no
  record and a margin that is omitted or a finite number above \<open>-1\<close>, \<open>zoomToElements\<close>
  does not reject the selection: the filtered maxima are \<open>-Infinity\<close> and both scale
  factors are zero, so the scale is degenerate but finite.
\<close>

theorem zoom_no_match_zero:
  assumes "data \<noteq> []" and "\<forall>d\<in>set (assignIndex data). \<not> f d"
    and "js_isFinite (fullMax_x data)"
    and "mo = None \<or> (\<exists>m. mo = Some (Fin m) \<and> - 1 < m)"
  shows "js_isZero (scaleX (snd (zoomToElements config data (Some f) mo)))
       \<and> scaleY (snd (zoomToElements config data (Some f) mo)) = NZero"
proof -
  have none: "filter f (assignIndex data) = []" using assms(2) by (rule filter_none)
  have fx: "filteredMax_x data f = NInf" by (simp add: filteredMax_x_def none Math_max_Nil)
  have fy: "filteredMax_y config data f = NInf" by (simp add: filteredMax_y_def none Math_max_Nil)
  obtain q where q: "margin_or_0 mo = Fin q" "- 1 < q"
    using assms(4) by (auto simp: margin_or_0_Fin simp del: margin_or_0.simps(2))
  have my: "fullMax_y config data = Fin (12 * of_nat (length data - 1))"
    using assms(1) by (rule fullMax_y_config)
  have x: "axisScale NInf (fullMax_x data) (Fin q) = (if sign_neg (fullMax_x data) then Fin 0 else NZero)"
    using assms(3) q(2) by (rule axisScale_NInf)
  have y: "axisScale NInf (fullMax_y config data) (Fin q) = NZero"
    using q(2) by (simp add: axisScale_NInf my)
  show ?thesis by (simp add: zoom_scaleX zoom_scaleY fx fy q(1) x y)
qed

theorem zoom_no_match_zero_witness:
  "js_isZero (scaleX (snd (zoomToElements config (chartData har_three)
                             (Some (\<lambda>d. type d = ''font'')) (Some (Fin (1 / 10))))))
   \<and> scaleY (snd (zoomToElements config (chartData har_three)
                     (Some (\<lambda>d. type d = ''font'')) (Some (Fin (1 / 10))))) = NZero"
proof -
  have 1: "chartData har_three \<noteq> []"
    unfolding chartData_har_three by code_simp
  have 2: "\<forall>d\<in>set (assignIndex (chartData har_three)). \<not> type d = ''font''"
    unfolding chartData_har_three by code_simp
  have 3: "js_isFinite (fullMax_x (chartData har_three))"
    unfolding chartData_har_three by code_simp
  have 4: "Some (Fin (1 / 10)) = None \<or> (\<exists>m. Some (Fin (1 / 10)) = Some (Fin m) \<and> - 1 < m)"
    by (intro disjI2 exI [of _ "1 / 10"]) simp
  show ?thesis by (rule zoom_no_match_zero [OF 1 2 3 4])
qed

text \<open>
  No record of \<open>har_one\<close> is a script: both scale factors are \<open>-0\<close>, which is finite.
\<close>

theorem zoom_no_match_counterexample:
  "chartData har_one \<noteq> []
   \<and> filter (\<lambda>d. type d = ''script'') (assignIndex (chartData har_one)) = []
   \<and> snd (zoomToElements config (chartData har_one) (Some (\<lambda>d. type d = ''script'')) None) =
       \<lparr> scaleX = NZero, scaleY = NZero \<rparr>
   \<and> js_isFinite NZero"
  unfolding chartData_har_one by code_simp

text \<open>
  C10, as amended. When the filter matches a record, the full maxima are positive, the
  largest \<open>end\<close> is finite, the largest \<open>end\<close> of the matching records is positive and the
  margin is omitted or a finite number from \<open>-1\<close> on, both scale factors are at least 1
  (the vertical one is \<open>Infinity\<close> when only the first record matches).
\<close>

theorem zoom_scale_ge_1:
  assumes "filter (filter_or_all fo) (assignIndex data) \<noteq> []"
    and "js_lt (Fin 0) (fullMax_x data)" and "js_isFinite (fullMax_x data)"
    and "js_lt (Fin 0) (fullMax_y config data)"
    and "js_lt (Fin 0) (filteredMax_x data (filter_or_all fo))"
    and "mo = None \<or> (\<exists>m. mo = Some (Fin m) \<and> - 1 \<le> m)"
  shows "js_le (Fin 1) (scaleX (snd (zoomToElements config data fo mo)))
       \<and> js_le (Fin 1) (scaleY (snd (zoomToElements config data fo mo)))"
proof -
  obtain q where q: "margin_or_0 mo = Fin q" "- 1 \<le> q" using margin_cases [OF assms(6)] by auto
  obtain b where b: "fullMax_x data = Fin b" "0 < b"
    using pos_finite_Fin [OF assms(2,3)] by auto
  have fn: "filteredMax_x data (filter_or_all fo) \<noteq> NaN" using assms(5) by auto
  have "js_le (filteredMax_x data (filter_or_all fo)) (fullMax_x data)"
    using assms(1) fn by (rule filteredMax_x_le) (simp add: b)
  with assms(5) obtain a where a: "filteredMax_x data (filter_or_all fo) = Fin a" "0 < a" "a \<le> b"
    by (cases "filteredMax_x data (filter_or_all fo)") (simp_all add: b js_le_def not_less)
  have x: "js_le (Fin 1) (axisScale (Fin a) (Fin b) (Fin q))"
    using a b q by (simp add: axisScale_ge_1)
  obtain i where i: "i < length data" "filteredMax_y config data (filter_or_all fo) = Fin (12 * of_nat i)"
    using filteredMax_y_config [OF assms(1)] by auto
  have ne: "data \<noteq> []" using i(1) by auto
  have my: "fullMax_y config data = Fin (12 * of_nat (length data - 1))"
    using ne by (rule fullMax_y_config)
  have pos: "(0::rat) < 12 * of_nat (length data - 1)" using assms(4) by (simp add: my)
  have le: "(12::rat) * of_nat i \<le> 12 * of_nat (length data - 1)" using i(1) by simp
  have y: "js_le (Fin 1) (axisScale (Fin (12 * of_nat i)) (Fin (12 * of_nat (length data - 1))) (Fin q))"
    using le pos q(2) by (intro axisScale_ge_1) simp_all
  show ?thesis using x y by (simp add: zoom_scaleX zoom_scaleY a b i my q)
qed

theorem zoom_scale_ge_1_witness:
  "js_le (Fin 1) (scaleX (snd (zoomToElements config (chartData har_three)
                                 (Some (\<lambda>d. type d = ''script'')) (Some (Fin (1 / 10))))))
   \<and> js_le (Fin 1) (scaleY (snd (zoomToElements config (chartData har_three)
                                   (Some (\<lambda>d. type d = ''script'')) (Some (Fin (1 / 10))))))"
proof -
  have 1: "filter (filter_or_all (Some (\<lambda>d. type d = ''script'')))
             (assignIndex (chartData har_three)) \<noteq> []"
    unfolding chartData_har_three by code_simp
  have 2: "js_lt (Fin 0) (fullMax_x (chartData har_three))"
    unfolding chartData_har_three by code_simp
  have 3: "js_isFinite (fullMax_x (chartData har_three))"
    unfolding chartData_har_three by code_simp
  have 4: "js_lt (Fin 0) (fullMax_y config (chartData har_three))"
    unfolding chartData_har_three by code_simp
  have 5: "js_lt (Fin 0) (filteredMax_x (chartData har_three)
                            (filter_or_all (Some (\<lambda>d. type d = ''script''))))"
    unfolding chartData_har_three by code_simp
  have 6: "Some (Fin (1 / 10)) = None \<or> (\<exists>m. Some (Fin (1 / 10)) = Some (Fin m) \<and> - 1 \<le> m)"
    by (intro disjI2 exI [of _ "1 / 10"]) simp
  show ?thesis by (rule zoom_scale_ge_1 [OF 1 2 3 4 5 6])
qed

text \<open>
  The full maxima are positive and the filter matches a record, yet the horizontal scale
  is \<open>-14\<close> when the matching record ends before the page starts, \<open>-9/8\<close> for the
  margin \<open>-3\<close>, and \<open>NaN\<close> when a record ends at \<open>Infinity\<close>.
\<close>

theorem zoom_scale_ge_1_counterexample:
  "filter (\<lambda>d. type d = ''other'') (assignIndex (chartData har_early)) \<noteq> []
   \<and> js_lt (Fin 0) (fullMax_x (chartData har_early))
   \<and> js_lt (Fin 0) (fullMax_y config (chartData har_early))
   \<and> scaleX (snd (zoomToElements config (chartData har_early)
                    (Some (\<lambda>d. type d = ''other'')) None)) = Fin (- 14)
   \<and> \<not> js_le (Fin 1) (Fin (- 14))
   \<and> scaleX (snd (zoomToElements config (chartData har_three)
                    (Some (\<lambda>d. type d = ''other'')) (Some (Fin (- 3))))) = Fin (- (9 / 8))
   \<and> \<not> js_le (Fin 1) (Fin (- (9 / 8)))
   \<and> js_lt (Fin 0) (fullMax_x (chartData har_inf))
   \<and> js_lt (Fin 0) (fullMax_y config (chartData har_inf))
   \<and> scaleX (snd (zoomToElements config (chartData har_inf) None None)) = NaN
   \<and> \<not> js_le (Fin 1) NaN"
  unfolding chartData_har_three chartData_har_early chartData_har_inf by code_simp

end
